theory Spec2Isabelle
  imports Complex_Main
begin

section \<open>The relationship graph explorer (frontend/src/App.jsx)\<close>

text \<open>
  The component \<^verbatim>\<open>GraphExplorer\<close> keeps eight state variables, three effects and
  the handlers of its controls. The model follows React's rules for them: a setter stores
  the new value and marks the variable as changed; after the handler the component renders,
  and every effect whose dependency list holds a changed variable runs with the values of
  that render (its closure); a setter called by an effect leads to one more render.
  Arrays and objects are compared by reference, so setting one always counts as a change;
  strings, numbers and booleans are compared by value.
\<close>

subsection \<open>Data on the wire\<close>

text \<open>Node and edge shapes as the drawing code reads them (\<^verbatim>\<open>d.id\<close>, \<^verbatim>\<open>d.size\<close>, ...).\<close>

record node =
  d_id :: string
  d_label :: string
  d_type :: string
  d_size :: real
  d_expandable :: bool
  d_expanded :: bool
  d_root :: bool

record link =
  l_source :: string
  l_target :: string
  l_color :: string
  l_relationship_sub_type :: string

record graph =
  nodes :: "node list"
  links :: "link list"

record stats_data =
  node_count :: int
  edge_count :: int
  density :: real

text \<open>
  What \<^verbatim>\<open>response.json()\<close> gives for a graph query: a graph, or a body that reports an
  error and has no \<^verbatim>\<open>nodes\<close> and \<^verbatim>\<open>links\<close> (the server answers a request that it refuses
  with an error status and such a body; \<^verbatim>\<open>fetch\<close> resolves for it all the same).
\<close>

datatype graph_answer = Graph graph | NoGraph string

text \<open>The two values of the mode radio buttons, \<^verbatim>\<open>'interactive'\<close> and \<^verbatim>\<open>'radial'\<close>.\<close>

datatype mode = Interactive | Radial

text \<open>The requests the component sends with \<^verbatim>\<open>fetch\<close>.\<close>

datatype request =
    UploadReq
  | StatsReq
  | InteractiveReq string "string list"
  | RadialReq string int

subsection \<open>The force simulation and the drawn graph\<close>

text \<open>
  \<^verbatim>\<open>d3.forceSimulation(graphData.nodes)\<close> works on the node objects of the response and
  adds the layout fields to them: index, position, velocity and the optional pin.
\<close>

record layout_node = node +
  d_index :: nat
  d_x :: real
  d_y :: real
  d_vx :: real
  d_vy :: real
  d_fx :: "real option"
  d_fy :: "real option"

text \<open>
  The simulation object, as far as the component configures and drives it: the nodes and
  links, the four forces with their parameters, the alpha target, and the number of calls
  of \<^verbatim>\<open>restart()\<close>. The cooling of alpha and the forces themselves are inside d3-force.
\<close>

record simulation =
  sim_nodes :: "layout_node list"
  sim_links :: "link list"
  link_distance :: real
  charge_strength :: real
  center :: "real \<times> real"
  collide_radius :: "layout_node \<Rightarrow> real"
  alphaTarget :: real
  restarts :: nat

text \<open>
  What one run of the drawing effect leaves in the \<^verbatim>\<open>svg\<close> element: the simulation,
  whose nodes are the data bound to the drawn groups; the value of \<^verbatim>\<open>mode\<close> that the
  click handler closed over; and the drag behaviour's list of running gestures (one entry,
  the index of the dragged node, for each).
\<close>

record view =
  handler_mode :: mode
  simulation :: simulation
  gestures :: "nat list"

text \<open>
  d3-force places a node that comes without coordinates on a spiral, by its index alone
  (radius \<open>10 * sqrt (0.5 + i)\<close>, angle \<open>i * pi * (3 - sqrt 5)\<close>), at rest and unpinned.
  The nodes of a response have no coordinates.
\<close>

definition initialRadius :: real where
  "initialRadius = 10"

definition initialAngle :: real where
  "initialAngle = pi * (3 - sqrt 5)"

definition initializeNode :: "nat \<Rightarrow> node \<Rightarrow> layout_node" where
  "initializeNode i d =
     \<lparr>d_id = d_id d, d_label = d_label d, d_type = d_type d, d_size = d_size d,
      d_expandable = d_expandable d, d_expanded = d_expanded d, d_root = d_root d,
      d_index = i,
      d_x = initialRadius * sqrt (0.5 + real i) * cos (real i * initialAngle),
      d_y = initialRadius * sqrt (0.5 + real i) * sin (real i * initialAngle),
      d_vx = 0, d_vy = 0, d_fx = None, d_fy = None\<rparr>"

fun initializeNodes :: "nat \<Rightarrow> node list \<Rightarrow> layout_node list" where
  "initializeNodes i [] = []"
| "initializeNodes i (d # ds) = initializeNode i d # initializeNodes (Suc i) ds"

text \<open>
  \<^verbatim>\<open>d3.forceLink(graphData.links).id(d => d.id)\<close> looks up both ends of every link
  among the nodes and throws when one is missing.
\<close>

definition links_resolve :: "graph \<Rightarrow> bool" where
  "links_resolve g \<longleftrightarrow>
     list_all (\<lambda>l. l_source l \<in> d_id ` set (nodes g) \<and> l_target l \<in> d_id ` set (nodes g)) (links g)"

text \<open>
  Lines 122-126: the simulation over the nodes of the response, with the link force
  (distance 150), the charge (strength -500), the centre of the 1000 x 700 canvas and the
  collision force \<^verbatim>\<open>d3.forceCollide().radius(40)\<close>.
\<close>

definition forceSimulation :: "graph \<Rightarrow> simulation" where
  "forceSimulation g =
     \<lparr>sim_nodes = initializeNodes 0 (nodes g), sim_links = links g,
      link_distance = 150, charge_strength = - 500, center = (1000 / 2, 700 / 2),
      collide_radius = (\<lambda>d. 40), alphaTarget = 0, restarts = 0\<rparr>"

text \<open>Lines 166-168 and 181-183: the circle of a node is drawn with radius \<^verbatim>\<open>d.size\<close>.\<close>

definition circle_r :: "layout_node \<Rightarrow> real" where
  "circle_r d = d_size d"

definition draw :: "graph \<Rightarrow> mode \<Rightarrow> view" where
  "draw g m = \<lparr>handler_mode = m, simulation = forceSimulation g, gestures = []\<rparr>"

subsection \<open>The component's state\<close>

datatype upload_phase = NoUpload | AwaitUpload | AwaitStats

text \<open>
  The state variables of lines 9-16, the content of the \<^verbatim>\<open>svg\<close> element
  (\<open>None\<close>: not mounted, or mounted and still empty), whether an error thrown by an effect
  has unmounted the component, and the outside world: the requests sent so far, the
  alerts shown so far, and the requests still waiting for their answer.
\<close>

record app =
  entities :: "string list"
  selectedEntity :: string
  expandedNodes :: "string list"
  graphData :: "graph_answer option"
  stats :: "stats_data option"
  mode :: mode
  depth :: int
  uploading :: bool
  svg :: "view option"
  crashed :: bool
  requests :: "request list"
  alerts :: "string list"
  uploadPhase :: upload_phase
  loadsInFlight :: nat

definition init :: app where
  "init = \<lparr>entities = [], selectedEntity = [], expandedNodes = [], graphData = None,
           stats = None, mode = Interactive, depth = 2, uploading = False,
           svg = None, crashed = False, requests = [], alerts = [],
           uploadPhase = NoUpload, loadsInFlight = 0\<rparr>"

datatype statevar =
  Entities | SelectedEntity | ExpandedNodes | GraphData | Stats | Mode | Depth | Uploading

text \<open>A state together with the variables set since the last render.\<close>

type_synonym pending = "statevar set \<times> app"

subsection \<open>Setters\<close>

text \<open>
  An error thrown by an effect unmounts the component (there is no error boundary). The
  awaited continuations of \<^verbatim>\<open>uploadFile\<close> and \<^verbatim>\<open>loadGraph\<close> still run then, but
  the setters of an unmounted component do nothing.
\<close>

fun setEntities :: "string list \<Rightarrow> pending \<Rightarrow> pending" where
  "setEntities v (D, st) =
     (if crashed st then (D, st) else (insert Entities D, st\<lparr>entities := v\<rparr>))"

fun setSelectedEntity :: "string \<Rightarrow> pending \<Rightarrow> pending" where
  "setSelectedEntity v (D, st) =
     (if crashed st \<or> selectedEntity st = v then (D, st)
      else (insert SelectedEntity D, st\<lparr>selectedEntity := v\<rparr>))"

fun setExpandedNodes :: "(string list \<Rightarrow> string list) \<Rightarrow> pending \<Rightarrow> pending" where
  "setExpandedNodes f (D, st) =
     (if crashed st then (D, st)
      else (insert ExpandedNodes D, st\<lparr>expandedNodes := f (expandedNodes st)\<rparr>))"

fun setGraphData :: "graph_answer \<Rightarrow> pending \<Rightarrow> pending" where
  "setGraphData a (D, st) =
     (if crashed st then (D, st) else (insert GraphData D, st\<lparr>graphData := Some a\<rparr>))"

fun setStats :: "stats_data \<Rightarrow> pending \<Rightarrow> pending" where
  "setStats s (D, st) =
     (if crashed st then (D, st) else (insert Stats D, st\<lparr>stats := Some s\<rparr>))"

fun setMode :: "mode \<Rightarrow> pending \<Rightarrow> pending" where
  "setMode v (D, st) =
     (if crashed st \<or> mode st = v then (D, st) else (insert Mode D, st\<lparr>mode := v\<rparr>))"

fun setDepth :: "int \<Rightarrow> pending \<Rightarrow> pending" where
  "setDepth v (D, st) =
     (if crashed st \<or> depth st = v then (D, st) else (insert Depth D, st\<lparr>depth := v\<rparr>))"

fun setUploading :: "bool \<Rightarrow> pending \<Rightarrow> pending" where
  "setUploading v (D, st) =
     (if crashed st \<or> uploading st = v then (D, st)
      else (insert Uploading D, st\<lparr>uploading := v\<rparr>))"

fun fetch :: "request \<Rightarrow> pending \<Rightarrow> pending" where
  "fetch r (D, st) = (D, st\<lparr>requests := requests st @ [r]\<rparr>)"

fun alert :: "string \<Rightarrow> pending \<Rightarrow> pending" where
  "alert msg (D, st) = (D, st\<lparr>alerts := alerts st @ [msg]\<rparr>)"

text \<open>An error thrown while rendering or in an effect: React removes the component.\<close>

fun unmount :: "pending \<Rightarrow> pending" where
  "unmount (D, st) = (D, st\<lparr>svg := None, crashed := True\<rparr>)"

subsection \<open>uploadFile (lines 20-41), one function for each stretch between two awaits\<close>

fun uploadFile_begin :: "pending \<Rightarrow> pending" where
  "uploadFile_begin p =
     (case fetch UploadReq (setUploading True p) of
        (D, st) \<Rightarrow> (D, st\<lparr>uploadPhase := AwaitUpload\<rparr>))"

fun uploadFile_entities :: "string list \<Rightarrow> pending \<Rightarrow> pending" where
  "uploadFile_entities es p =
     (case fetch StatsReq (setEntities es p) of
        (D, st) \<Rightarrow> (D, st\<lparr>uploadPhase := AwaitStats\<rparr>))"

fun uploadFile_stats :: "stats_data \<Rightarrow> pending \<Rightarrow> pending" where
  "uploadFile_stats s p =
     (case setUploading False (setStats s p) of
        (D, st) \<Rightarrow> (D, st\<lparr>uploadPhase := NoUpload\<rparr>))"

text \<open>
  The upload is answered with an error report: lines 26-31 do not look at the status, so
  \<^verbatim>\<open>setEntities(data.entities)\<close> stores \<^verbatim>\<open>undefined\<close> and the statistics are requested;
  the render that follows reads \<^verbatim>\<open>entities.length\<close> (line 331) and throws.
\<close>

fun uploadFile_no_entities :: "pending \<Rightarrow> pending" where
  "uploadFile_no_entities p =
     (case fetch StatsReq p of
        (D, st) \<Rightarrow> unmount (D, st\<lparr>uploadPhase := AwaitStats\<rparr>))"

text \<open>
  The statistics request is answered with an error report: \<^verbatim>\<open>setStats\<close> stores it, and
  the render that follows reads \<^verbatim>\<open>stats.density.toFixed\<close> (line 324) and throws.
\<close>

fun uploadFile_no_stats :: "pending \<Rightarrow> pending" where
  "uploadFile_no_stats p =
     (case setUploading False p of
        (D, st) \<Rightarrow> unmount (D, st\<lparr>uploadPhase := NoUpload\<rparr>))"

fun uploadFile_catch :: "string \<Rightarrow> pending \<Rightarrow> pending" where
  "uploadFile_catch msg p =
     (case setUploading False (alert (''Error uploading file: '' @ msg) p) of
        (D, st) \<Rightarrow> (D, st\<lparr>uploadPhase := NoUpload\<rparr>))"

subsection \<open>loadGraph (lines 43-69)\<close>

text \<open>
  The call up to the await: \<open>snap\<close> holds the values of the render whose effect calls it.
\<close>

definition query :: "app \<Rightarrow> request" where
  "query snap =
     (if mode snap = Interactive
      then InteractiveReq (selectedEntity snap) (expandedNodes snap)
      else RadialReq (selectedEntity snap) (depth snap))"

fun loadGraph :: "app \<Rightarrow> pending \<Rightarrow> pending" where
  "loadGraph snap (D, st) =
     (if selectedEntity snap = [] then (D, st)
      else fetch (query snap) (D, st\<lparr>loadsInFlight := Suc (loadsInFlight st)\<rparr>))"

fun loadGraph_data :: "graph_answer \<Rightarrow> pending \<Rightarrow> pending" where
  "loadGraph_data a (D, st) =
     setGraphData a (D, st\<lparr>loadsInFlight := loadsInFlight st - 1\<rparr>)"

fun loadGraph_catch :: "string \<Rightarrow> pending \<Rightarrow> pending" where
  "loadGraph_catch msg (D, st) =
     alert (''Error loading graph: '' @ msg) (D, st\<lparr>loadsInFlight := loadsInFlight st - 1\<rparr>)"

subsection \<open>The effects (lines 71-75, 77-79, 81-271)\<close>

fun useEffect_selectedEntity :: "app \<Rightarrow> pending \<Rightarrow> pending" where
  "useEffect_selectedEntity snap p =
     (if selectedEntity snap \<noteq> [] then setExpandedNodes (\<lambda>prev. [selectedEntity snap]) p
      else p)"

text \<open>
  The \<^verbatim>\<open>svg\<close> element is part of the rendered page only when there are entities, one is
  selected and there is graph data (lines 397, 448-457).
\<close>

definition svgMounted :: "app \<Rightarrow> bool" where
  "svgMounted st \<longleftrightarrow> entities st \<noteq> [] \<and> selectedEntity st \<noteq> [] \<and> graphData st \<noteq> None"

text \<open>
  The drawing effect throws when the graph data has no \<^verbatim>\<open>links\<close> to bind
  (\<^verbatim>\<open>.data(graphData.links)\<close>, line 133) and when a link does not resolve.
\<close>

fun useEffect_graphData :: "app \<Rightarrow> pending \<Rightarrow> pending" where
  "useEffect_graphData snap (D, st) =
     (case graphData snap of
        None \<Rightarrow> (D, st)
      | Some a \<Rightarrow>
          if \<not> svgMounted snap then (D, st)
          else (case a of
                  NoGraph msg \<Rightarrow> unmount (D, st)
                | Graph g \<Rightarrow>
                    if \<not> links_resolve g then unmount (D, st)
                    else (D, st\<lparr>svg := Some (draw g (mode snap))\<rparr>)))"

text \<open>
  One render: the page is brought up to date, then the effects run in the order in which
  the component declares them, each one only if one of its dependencies was set.
\<close>

definition commit :: "app \<Rightarrow> app" where
  "commit snap = snap\<lparr>svg := (if svgMounted snap then svg snap else None)\<rparr>"

definition render_pass :: "statevar set \<Rightarrow> app \<Rightarrow> pending" where
  "render_pass D snap =
     (let p0 = ({}, commit snap);
          p1 = (if SelectedEntity \<in> D then useEffect_selectedEntity snap p0 else p0);
          p2 = (if SelectedEntity \<in> D \<or> ExpandedNodes \<in> D \<or> Mode \<in> D \<or> Depth \<in> D
                then loadGraph snap p1 else p1);
          p3 = (if GraphData \<in> D then useEffect_graphData snap p2 else p2)
      in p3)"

text \<open>React renders again as long as a setter was called.\<close>

function settle :: "statevar set \<Rightarrow> app \<Rightarrow> app" where
  "settle D st =
     (if D = {} \<or> crashed st then st
      else case render_pass D st of (D', st') \<Rightarrow> settle D' st')"
  by pat_completeness auto
termination
  apply (relation "measure (\<lambda>(D, st). if D = {} then 0 else if SelectedEntity \<in> D then 2 else 1)")
   apply simp
  subgoal for D st p D'
    by (simp add: case_prod_beta render_pass_def commit_def Let_def
          split: option.splits graph_answer.splits)
  done

declare settle.simps [simp del]

subsection \<open>Handlers bound to the drawn nodes (lines 205-211 and 254-269)\<close>

fun node_click :: "mode \<Rightarrow> layout_node \<Rightarrow> pending \<Rightarrow> pending" where
  "node_click m d p =
     (if d_expandable d \<and> m = Interactive
      then setExpandedNodes (\<lambda>prev. prev @ [d_id d]) p
      else p)"

definition restart :: "simulation \<Rightarrow> simulation" where
  "restart sim = sim\<lparr>restarts := Suc (restarts sim)\<rparr>"

text \<open>
  The dragged node \<^verbatim>\<open>d\<close> is one of the simulation's node objects; it is named here by
  its index. \<open>event_active\<close> is \<^verbatim>\<open>event.active\<close>.
\<close>

definition dragstarted :: "nat \<Rightarrow> nat \<Rightarrow> simulation \<Rightarrow> simulation" where
  "dragstarted event_active i sim =
     (let sim' = (if event_active = 0 then restart (sim\<lparr>alphaTarget := 0.3\<rparr>) else sim);
          d = sim_nodes sim' ! i
      in sim'\<lparr>sim_nodes := (sim_nodes sim')[i := d\<lparr>d_fx := Some (d_x d), d_fy := Some (d_y d)\<rparr>]\<rparr>)"

definition dragged :: "real \<Rightarrow> real \<Rightarrow> nat \<Rightarrow> simulation \<Rightarrow> simulation" where
  "dragged event_x event_y i sim =
     sim\<lparr>sim_nodes := (sim_nodes sim)[i := (sim_nodes sim ! i)\<lparr>d_fx := Some event_x, d_fy := Some event_y\<rparr>]\<rparr>"

definition dragended :: "nat \<Rightarrow> nat \<Rightarrow> simulation \<Rightarrow> simulation" where
  "dragended event_active i sim =
     (let sim' = (if event_active = 0 then sim\<lparr>alphaTarget := 0\<rparr> else sim);
          d = sim_nodes sim' ! i
      in sim'\<lparr>sim_nodes := (sim_nodes sim')[i := d\<lparr>d_fx := None, d_fy := None\<rparr>]\<rparr>)"

text \<open>
  One step of the simulation, as d3-force moves a node. The link, charge and collision
  forces change velocities only; the velocities that they leave, after the velocity decay,
  are an input here (\<open>vel\<close>, by node index). The centre force moves every node by the
  same amount, so that the mean position becomes the centre. Then a pinned coordinate is
  set to the pin and its velocity to zero, and a free one moves by its velocity.
\<close>

definition centre_shift :: "simulation \<Rightarrow> real \<times> real" where
  "centre_shift sim =
     (sum_list (map d_x (sim_nodes sim)) / real (length (sim_nodes sim)) - fst (center sim),
      sum_list (map d_y (sim_nodes sim)) / real (length (sim_nodes sim)) - snd (center sim))"

definition tick_node :: "real \<times> real \<Rightarrow> real \<times> real \<Rightarrow> layout_node \<Rightarrow> layout_node" where
  "tick_node shift v d =
     d\<lparr>d_x := (case d_fx d of None \<Rightarrow> d_x d - fst shift + fst v | Some f \<Rightarrow> f),
       d_y := (case d_fy d of None \<Rightarrow> d_y d - snd shift + snd v | Some f \<Rightarrow> f),
       d_vx := (case d_fx d of None \<Rightarrow> fst v | Some f \<Rightarrow> 0),
       d_vy := (case d_fy d of None \<Rightarrow> snd v | Some f \<Rightarrow> 0)\<rparr>"

definition tick :: "(nat \<Rightarrow> real \<times> real) \<Rightarrow> simulation \<Rightarrow> simulation" where
  "tick vel sim =
     sim\<lparr>sim_nodes := map (\<lambda>d. tick_node (centre_shift sim) (vel (d_index d)) d) (sim_nodes sim)\<rparr>"

subsection \<open>handleReset (lines 273-277) and the depth control (lines 360-367)\<close>

fun handleReset :: "app \<Rightarrow> pending \<Rightarrow> pending" where
  "handleReset snap p =
     (if selectedEntity snap \<noteq> [] then setExpandedNodes (\<lambda>prev. [selectedEntity snap]) p
      else p)"

text \<open>
  The value of an \<^verbatim>\<open>input type="range"\<close> with whole-number bounds and the default
  step 1 is a whole number between \<^verbatim>\<open>min\<close> and \<^verbatim>\<open>max\<close>: the browser moves any
  other value to the nearest bound. \<^verbatim>\<open>parseInt\<close> reads that number back.
\<close>

definition range_value :: "int \<Rightarrow> int \<Rightarrow> int \<Rightarrow> int" where
  "range_value lo hi v = (if v < lo then lo else if hi < v then hi else v)"

subsection \<open>Events\<close>

text \<open>
  What can happen to the mounted component: the user works a control that the page shows,
  an awaited request is answered or fails, a drag gesture starts, moves or ends on a drawn
  node, the simulation takes a step. An event that cannot happen in a state (a control that
  is not on the page, an answer nobody waits for) leaves the state as it is.
  What an answer holds is the server's choice: any list of entities, any statistics, any
  graph of the wire shape, or an error report in place of them (the events named
  \<open>ErrorBody\<close>, with the report's text); a rejected \<^verbatim>\<open>fetch\<close> or \<^verbatim>\<open>json\<close> call
  carries the error's message.
  A drag gesture's \<^verbatim>\<open>event.active\<close> is the number of the other running gestures of
  the same drag behaviour.
\<close>

datatype event =
    UploadFile
  | UploadResolved "string list"
  | UploadErrorBody string
  | UploadRejected string
  | StatsResolved stats_data
  | StatsErrorBody string
  | StatsRejected string
  | SelectEntity string
  | LoadResolved graph
  | LoadErrorBody string
  | LoadRejected string
  | Click nat
  | Reset
  | SetMode mode
  | SetDepth int
  | DragStart nat
  | Dragged nat real real
  | DragEnd nat
  | Tick "nat \<Rightarrow> real \<times> real"

text \<open>Whether the drawing effect throws on the graph data.\<close>

definition effect_throws :: "graph_answer option \<Rightarrow> bool" where
  "effect_throws a =
     (case a of None \<Rightarrow> False | Some (NoGraph msg) \<Rightarrow> True | Some (Graph g) \<Rightarrow> \<not> links_resolve g)"

text \<open>The drawn graph that the user can reach, if any.\<close>

definition page :: "app \<Rightarrow> view option" where
  "page st = (if crashed st then None else svg st)"

fun handler :: "event \<Rightarrow> app \<Rightarrow> pending" where
  "handler UploadFile st =
     (if crashed st \<or> uploading st then ({}, st) else uploadFile_begin ({}, st))"
| "handler (UploadResolved es) st =
     (if uploadPhase st = AwaitUpload then uploadFile_entities es ({}, st) else ({}, st))"
| "handler (UploadErrorBody msg) st =
     (if uploadPhase st = AwaitUpload then uploadFile_no_entities ({}, st) else ({}, st))"
| "handler (UploadRejected msg) st =
     (if uploadPhase st = AwaitUpload then uploadFile_catch msg ({}, st) else ({}, st))"
| "handler (StatsResolved s) st =
     (if uploadPhase st = AwaitStats then uploadFile_stats s ({}, st) else ({}, st))"
| "handler (StatsErrorBody msg) st =
     (if uploadPhase st = AwaitStats then uploadFile_no_stats ({}, st) else ({}, st))"
| "handler (StatsRejected msg) st =
     (if uploadPhase st = AwaitStats then uploadFile_catch msg ({}, st) else ({}, st))"
| "handler (SelectEntity e) st =
     (if \<not> crashed st \<and> entities st \<noteq> [] \<and> (e = [] \<or> e \<in> set (entities st))
      then setSelectedEntity e ({}, st) else ({}, st))"
| "handler (LoadResolved g) st =
     (if 0 < loadsInFlight st then loadGraph_data (Graph g) ({}, st) else ({}, st))"
| "handler (LoadErrorBody msg) st =
     (if 0 < loadsInFlight st then loadGraph_data (NoGraph msg) ({}, st) else ({}, st))"
| "handler (LoadRejected msg) st =
     (if 0 < loadsInFlight st then loadGraph_catch msg ({}, st) else ({}, st))"
| "handler (Click i) st =
     (case page st of
        None \<Rightarrow> ({}, st)
      | Some v \<Rightarrow>
          if i < length (sim_nodes (simulation v))
          then node_click (handler_mode v) (sim_nodes (simulation v) ! i) ({}, st)
          else ({}, st))"
| "handler Reset st =
     (if \<not> crashed st \<and> entities st \<noteq> [] \<and> mode st = Interactive \<and> selectedEntity st \<noteq> []
      then handleReset st ({}, st) else ({}, st))"
| "handler (SetMode m) st =
     (if \<not> crashed st \<and> entities st \<noteq> [] then setMode m ({}, st) else ({}, st))"
| "handler (SetDepth v) st =
     (if \<not> crashed st \<and> entities st \<noteq> [] \<and> mode st = Radial
      then setDepth (range_value 1 5 v) ({}, st) else ({}, st))"
| "handler (DragStart i) st =
     (case page st of
        None \<Rightarrow> ({}, st)
      | Some v \<Rightarrow>
          if i < length (sim_nodes (simulation v))
          then ({}, st\<lparr>svg := Some (v\<lparr>simulation := dragstarted (length (gestures v)) i (simulation v),
                                       gestures := i # gestures v\<rparr>)\<rparr>)
          else ({}, st))"
| "handler (Dragged i event_x event_y) st =
     (case page st of
        None \<Rightarrow> ({}, st)
      | Some v \<Rightarrow>
          if i \<in> set (gestures v) \<and> i < length (sim_nodes (simulation v))
          then ({}, st\<lparr>svg := Some (v\<lparr>simulation := dragged event_x event_y i (simulation v)\<rparr>)\<rparr>)
          else ({}, st))"
| "handler (DragEnd i) st =
     (case page st of
        None \<Rightarrow> ({}, st)
      | Some v \<Rightarrow>
          if i \<in> set (gestures v) \<and> i < length (sim_nodes (simulation v))
          then ({}, st\<lparr>svg := Some (v\<lparr>simulation :=
                                         dragended (length (remove1 i (gestures v))) i (simulation v),
                                       gestures := remove1 i (gestures v)\<rparr>)\<rparr>)
          else ({}, st))"
| "handler (Tick vel) st =
     (case page st of
        None \<Rightarrow> ({}, st)
      | Some v \<Rightarrow> ({}, st\<lparr>svg := Some (v\<lparr>simulation := tick vel (simulation v)\<rparr>)\<rparr>))"

text \<open>An event: its handler, then the renders it leads to.\<close>

definition step :: "event \<Rightarrow> app \<Rightarrow> app" where
  "step ev st = (case handler ev st of (D, st') \<Rightarrow> settle D st')"

fun run :: "event list \<Rightarrow> app \<Rightarrow> app" where
  "run [] st = st"
| "run (ev # evs) st = run evs (step ev st)"

subsection \<open>Reading the drawn graph\<close>

definition drawn :: "app \<Rightarrow> layout_node list" where
  "drawn st = (case page st of None \<Rightarrow> [] | Some v \<Rightarrow> sim_nodes (simulation v))"

definition click_mode :: "app \<Rightarrow> mode option" where
  "click_mode st = map_option handler_mode (page st)"

definition running_gestures :: "app \<Rightarrow> nat list" where
  "running_gestures st = (case page st of None \<Rightarrow> [] | Some v \<Rightarrow> gestures v)"

definition the_simulation :: "app \<Rightarrow> simulation option" where
  "the_simulation st = map_option simulation (page st)"

text \<open>
  While a drag gesture runs on the drawn graph, the alpha target is 0.3 and the simulation
  has been restarted.
\<close>

definition heated :: "view \<Rightarrow> bool" where
  "heated v \<longleftrightarrow>
     (gestures v \<noteq> [] \<longrightarrow> alphaTarget (simulation v) = 0.3 \<and> 0 < restarts (simulation v))"

text \<open>The collision force of the drawn graph gives every node the radius 40.\<close>

definition collides40 :: "view \<Rightarrow> bool" where
  "collides40 v \<longleftrightarrow> collide_radius (simulation v) = (\<lambda>d. 40)"

text \<open>The position of the node with a given identifier in a layout, if it is there.\<close>

definition position :: "string \<Rightarrow> layout_node list \<Rightarrow> (real \<times> real) option" where
  "position k ds = map_option (\<lambda>d. (d_x d, d_y d)) (find (\<lambda>d. d_id d = k) ds)"

text \<open>Every node of the new layout that was in the old one is where it was.\<close>

definition carried_over :: "layout_node list \<Rightarrow> layout_node list \<Rightarrow> bool" where
  "carried_over old new \<longleftrightarrow>
     list_all (\<lambda>d. case position (d_id d) old of None \<Rightarrow> True | Some p \<Rightarrow> (d_x d, d_y d) = p) new"

text \<open>The events whose handlers call \<^verbatim>\<open>setExpandedNodes\<close>, directly or through an effect.\<close>

fun writes_expandedNodes :: "event \<Rightarrow> bool" where
  "writes_expandedNodes (SelectEntity e) = True"
| "writes_expandedNodes (Click i) = True"
| "writes_expandedNodes Reset = True"
| "writes_expandedNodes ev = False"

subsection \<open>A session on the example of the specification\<close>

text \<open>
  The relationships Alice -> Acme, Acme -> Bob, Bob -> Acme. The first graph is the answer
  to the query for Alice alone, the second the answer after Acme was expanded.
\<close>

definition alice :: node where
  "alice = \<lparr>d_id = ''Alice'', d_label = ''Alice'', d_type = ''person'', d_size = 30,
            d_expandable = False, d_expanded = True, d_root = True\<rparr>"

definition acme :: node where
  "acme = \<lparr>d_id = ''Acme'', d_label = ''Acme'', d_type = ''company'', d_size = 20,
           d_expandable = True, d_expanded = False, d_root = False\<rparr>"

definition bob :: node where
  "bob = \<lparr>d_id = ''Bob'', d_label = ''Bob'', d_type = ''person'', d_size = 20,
          d_expandable = True, d_expanded = False, d_root = False\<rparr>"

definition employee :: "string \<Rightarrow> string \<Rightarrow> link" where
  "employee a b = \<lparr>l_source = a, l_target = b, l_color = ''#e41a1c'',
                    l_relationship_sub_type = ''employee''\<rparr>"

definition graph_alice :: graph where
  "graph_alice = \<lparr>nodes = [alice, acme], links = [employee ''Alice'' ''Acme'']\<rparr>"

definition graph_acme :: graph where
  "graph_acme =
     \<lparr>nodes = [alice, acme\<lparr>d_expandable := False, d_expanded := True\<rparr>, bob],
      links = [employee ''Alice'' ''Acme'', employee ''Acme'' ''Bob'', employee ''Bob'' ''Acme'']\<rparr>"

text \<open>
  Upload, choose Alice, and both queries that the choice sends are answered.
\<close>

definition session :: "event list" where
  "session =
     [UploadFile, UploadResolved [''Alice'', ''Acme'', ''Bob''],
      StatsResolved \<lparr>node_count = 3, edge_count = 3, density = 0.5\<rparr>,
      SelectEntity ''Alice'', LoadResolved graph_alice, LoadResolved graph_alice]"

section \<open>Rendering\<close>

lemma effect_throws_simps [simp]:
  "effect_throws None = False"
  "effect_throws (Some (NoGraph msg)) = True"
  "effect_throws (Some (Graph g)) = (\<not> links_resolve g)"
  by (simp_all add: effect_throws_def)

lemma render_pass_dirty:
  "fst (render_pass D st) =
     (if SelectedEntity \<in> D \<and> selectedEntity st \<noteq> [] \<and> \<not> crashed st then {ExpandedNodes} else {})"
  by (simp add: render_pass_def commit_def Let_def split: option.splits graph_answer.splits)

lemma settle_unfold:
  "settle D st =
     (if D = {} \<or> crashed st then st
      else let p = render_pass D st
           in if fst p = {} \<or> crashed (snd p) then snd p
              else snd (render_pass (fst p) (snd p)))"
proof -
  have second: "settle {ExpandedNodes} s = snd (render_pass {ExpandedNodes} s)"
    if "\<not> crashed s" for s
  proof -
    have "fst (render_pass {ExpandedNodes} s) = {}"
      by (simp add: render_pass_dirty)
    then show ?thesis
      using that by (subst settle.simps) (simp add: case_prod_beta settle.simps)
  qed
  show ?thesis
  proof (cases "D = {} \<or> crashed st")
    case True
    then show ?thesis by (subst settle.simps) simp
  next
    case False
    obtain D' st' where p: "render_pass D st = (D', st')"
      by (cases "render_pass D st")
    have D': "D' = {} \<or> D' = {ExpandedNodes}"
      using render_pass_dirty [of D st] p by (auto split: if_splits)
    have "settle D st = settle D' st'"
      using False p by (subst settle.simps) simp
    also have "\<dots> = (if D' = {} \<or> crashed st' then st' else snd (render_pass D' st'))"
      using D' second [of st'] by (auto simp: settle.simps)
    finally show ?thesis
      using False p by (simp add: Let_def)
  qed
qed

lemma pass_frame [simp]:
  "entities (snd (render_pass D st)) = entities st"
  "selectedEntity (snd (render_pass D st)) = selectedEntity st"
  "graphData (snd (render_pass D st)) = graphData st"
  "stats (snd (render_pass D st)) = stats st"
  "mode (snd (render_pass D st)) = mode st"
  "depth (snd (render_pass D st)) = depth st"
  "uploading (snd (render_pass D st)) = uploading st"
  "alerts (snd (render_pass D st)) = alerts st"
  "uploadPhase (snd (render_pass D st)) = uploadPhase st"
  by (simp_all add: render_pass_def commit_def Let_def split: option.splits graph_answer.splits)

lemma pass_expandedNodes:
  "expandedNodes (snd (render_pass D st)) =
     (if SelectedEntity \<in> D \<and> \<not> crashed st \<and> selectedEntity st \<noteq> [] then [selectedEntity st]
      else expandedNodes st)"
  by (simp add: render_pass_def commit_def Let_def split: option.splits graph_answer.splits)

lemma pass_crashed:
  "crashed (snd (render_pass D st)) =
     (crashed st \<or> (GraphData \<in> D \<and> svgMounted st \<and> effect_throws (graphData st)))"
  by (simp add: render_pass_def commit_def Let_def svgMounted_def effect_throws_def split: option.splits graph_answer.splits)

lemma pass_svg:
  "svg (snd (render_pass D st)) =
     (if \<not> svgMounted st then None
      else if GraphData \<in> D
           then (case graphData st of None \<Rightarrow> svg st
                 | Some (NoGraph msg) \<Rightarrow> None
                 | Some (Graph g) \<Rightarrow> if links_resolve g then Some (draw g (mode st)) else None)
           else svg st)"
  by (simp add: render_pass_def commit_def Let_def svgMounted_def effect_throws_def split: option.splits graph_answer.splits)

lemma pass_requests:
  "requests (snd (render_pass D st)) =
     requests st @
     (if selectedEntity st \<noteq> [] \<and> (SelectedEntity \<in> D \<or> ExpandedNodes \<in> D \<or> Mode \<in> D \<or> Depth \<in> D)
      then [query st] else [])"
  by (simp add: render_pass_def commit_def Let_def query_def split: option.splits graph_answer.splits)

lemma pass_loads:
  "loadsInFlight (snd (render_pass D st)) =
     loadsInFlight st +
     (if selectedEntity st \<noteq> [] \<and> (SelectedEntity \<in> D \<or> ExpandedNodes \<in> D \<or> Mode \<in> D \<or> Depth \<in> D)
      then 1 else 0)"
  by (simp add: render_pass_def commit_def Let_def query_def split: option.splits graph_answer.splits)

lemma pass_svgMounted [simp]: "svgMounted (snd (render_pass D st)) = svgMounted st"
  by (simp add: svgMounted_def)

lemma settle_frame [simp]:
  "entities (settle D st) = entities st"
  "selectedEntity (settle D st) = selectedEntity st"
  "graphData (settle D st) = graphData st"
  "stats (settle D st) = stats st"
  "mode (settle D st) = mode st"
  "depth (settle D st) = depth st"
  "uploading (settle D st) = uploading st"
  "alerts (settle D st) = alerts st"
  "uploadPhase (settle D st) = uploadPhase st"
  by (simp_all add: settle_unfold Let_def)

lemma expandedNodes_settle:
  "expandedNodes (settle D st) =
     (if SelectedEntity \<in> D \<and> \<not> crashed st \<and> selectedEntity st \<noteq> [] then [selectedEntity st]
      else expandedNodes st)"
  by (auto simp add: settle_unfold Let_def pass_expandedNodes render_pass_dirty pass_crashed)

lemma crashed_settle:
  "crashed (settle D st) =
     (crashed st \<or> (GraphData \<in> D \<and> svgMounted st \<and> effect_throws (graphData st)))"
  by (auto simp add: settle_unfold Let_def render_pass_dirty pass_crashed effect_throws_def split: option.splits graph_answer.splits)

lemma svg_settle:
  "svg (settle D st) =
     (if D = {} \<or> crashed st then svg st
      else if \<not> svgMounted st then None
      else if GraphData \<in> D
           then (case graphData st of None \<Rightarrow> svg st
                 | Some (NoGraph msg) \<Rightarrow> None
                 | Some (Graph g) \<Rightarrow> if links_resolve g then Some (draw g (mode st)) else None)
           else svg st)"
  by (auto simp add: settle_unfold Let_def render_pass_dirty pass_crashed pass_svg effect_throws_def split: option.splits graph_answer.splits)

lemma requests_settle:
  "requests (settle D st) =
     requests st @
     (if crashed st \<or> selectedEntity st = [] then []
      else (if SelectedEntity \<in> D \<or> ExpandedNodes \<in> D \<or> Mode \<in> D \<or> Depth \<in> D then [query st] else []) @
           (if SelectedEntity \<in> D \<and> \<not> crashed (settle D st)
            then [query (st\<lparr>expandedNodes := [selectedEntity st]\<rparr>)] else []))"
  by (auto simp add: settle_unfold Let_def render_pass_dirty pass_crashed pass_requests pass_expandedNodes query_def)

section \<open>Events\<close>

lemmas example_defs = alice_def acme_def bob_def employee_def graph_alice_def graph_acme_def
  session_def init_def

lemmas eval_defs = step_def settle_unfold render_pass_def commit_def svgMounted_def
  links_resolve_def draw_def forceSimulation_def initializeNode_def page_def query_def Let_def
  drawn_def click_mode_def running_gestures_def the_simulation_def

lemma run_snoc: "run (evs @ [ev]) st = step ev (run evs st)"
  by (induction evs arbitrary: st) simp_all

lemma run_append: "run (evs @ evs') st = run evs' (run evs st)"
  by (induction evs arbitrary: st) simp_all

lemma step_expandedNodes:
  "expandedNodes (step ev st) =
     (case ev of
        SelectEntity e \<Rightarrow>
          if \<not> crashed st \<and> entities st \<noteq> [] \<and> e \<in> set (entities st) \<and> e \<noteq> [] \<and> e \<noteq> selectedEntity st
          then [e] else expandedNodes st
      | Click i \<Rightarrow>
          if i < length (drawn st) \<and> d_expandable (drawn st ! i) \<and> click_mode st = Some Interactive
          then expandedNodes st @ [d_id (drawn st ! i)] else expandedNodes st
      | Reset \<Rightarrow>
          if \<not> crashed st \<and> entities st \<noteq> [] \<and> mode st = Interactive \<and> selectedEntity st \<noteq> []
          then [selectedEntity st] else expandedNodes st
      | _ \<Rightarrow> expandedNodes st)"
  by (cases ev)
     (auto simp add: step_def expandedNodes_settle drawn_def click_mode_def page_def
           split: option.splits graph_answer.splits)

lemma step_selectedEntity:
  "selectedEntity (step ev st) =
     (case ev of
        SelectEntity e \<Rightarrow>
          if \<not> crashed st \<and> entities st \<noteq> [] \<and> (e = [] \<or> e \<in> set (entities st))
          then e else selectedEntity st
      | _ \<Rightarrow> selectedEntity st)"
  by (cases ev) (auto simp add: step_def page_def split: option.splits graph_answer.splits)

lemma step_graphData:
  "graphData (step ev st) =
     (case ev of
        LoadResolved g \<Rightarrow>
          if 0 < loadsInFlight st \<and> \<not> crashed st then Some (Graph g) else graphData st
      | LoadErrorBody msg \<Rightarrow>
          if 0 < loadsInFlight st \<and> \<not> crashed st then Some (NoGraph msg) else graphData st
      | _ \<Rightarrow> graphData st)"
  by (cases ev) (auto simp add: step_def page_def split: option.splits graph_answer.splits)

lemma step_alerts:
  "alerts (step ev st) =
     alerts st @
     (case ev of
        UploadRejected msg \<Rightarrow> if uploadPhase st = AwaitUpload then [''Error uploading file: '' @ msg] else []
      | StatsRejected msg \<Rightarrow> if uploadPhase st = AwaitStats then [''Error uploading file: '' @ msg] else []
      | LoadRejected msg \<Rightarrow> if 0 < loadsInFlight st then [''Error loading graph: '' @ msg] else []
      | _ \<Rightarrow> [])"
  by (cases ev) (auto simp add: step_def page_def split: option.splits graph_answer.splits)

lemma step_depth:
  "depth (step ev st) =
     (case ev of
        SetDepth v \<Rightarrow>
          if \<not> crashed st \<and> entities st \<noteq> [] \<and> mode st = Radial then range_value 1 5 v else depth st
      | _ \<Rightarrow> depth st)"
  by (cases ev) (auto simp add: step_def page_def split: option.splits graph_answer.splits)

lemma step_radial_requests:
  "RadialReq e d \<in> set (requests (step ev st)) \<Longrightarrow>
     RadialReq e d \<in> set (requests st) \<or> d = depth (step ev st)"
  by (cases ev)
     (auto simp add: step_def requests_settle query_def page_def split: option.splits graph_answer.splits if_splits)

lemma step_frame_others:
  "\<not> writes_expandedNodes ev \<Longrightarrow> expandedNodes (step ev st) = expandedNodes st"
  "\<not> writes_expandedNodes ev \<Longrightarrow> selectedEntity (step ev st) = selectedEntity st"
  by (cases ev; simp add: step_expandedNodes step_selectedEntity)+

lemma run_frame_others:
  "list_all (\<lambda>ev. \<not> writes_expandedNodes ev) evs \<Longrightarrow>
     expandedNodes (run evs st) = expandedNodes st \<and> selectedEntity (run evs st) = selectedEntity st"
  by (induction evs arbitrary: st) (simp_all add: step_frame_others)

lemma page_settle:
  "page (settle D st) =
     (if D = {} \<or> crashed st then page st
      else if \<not> svgMounted st then None
      else if GraphData \<in> D
           then (case graphData st of None \<Rightarrow> page st
                 | Some (NoGraph msg) \<Rightarrow> None
                 | Some (Graph g) \<Rightarrow> if links_resolve g then Some (draw g (mode st)) else None)
           else page st)"
  by (auto simp add: page_def svg_settle crashed_settle split: option.splits graph_answer.splits)

lemma page_step_cases:
  "page (step ev st) = None \<or> page (step ev st) = page st
   \<or> (\<exists>g m. page (step ev st) = Some (draw g m))
   \<or> (\<exists>v i. page st = Some v \<and> i < length (sim_nodes (simulation v)) \<and> ev = DragStart i \<and>
         page (step ev st) = Some (v\<lparr>simulation := dragstarted (length (gestures v)) i (simulation v),
                                      gestures := i # gestures v\<rparr>))
   \<or> (\<exists>v i ex ey. page st = Some v \<and> i < length (sim_nodes (simulation v)) \<and> i \<in> set (gestures v) \<and> ev = Dragged i ex ey \<and>
         page (step ev st) = Some (v\<lparr>simulation := dragged ex ey i (simulation v)\<rparr>))
   \<or> (\<exists>v i. page st = Some v \<and> i < length (sim_nodes (simulation v)) \<and> i \<in> set (gestures v) \<and> ev = DragEnd i \<and>
         page (step ev st) = Some (v\<lparr>simulation := dragended (length (remove1 i (gestures v))) i (simulation v),
                                      gestures := remove1 i (gestures v)\<rparr>))
   \<or> (\<exists>v vel. page st = Some v \<and> ev = Tick vel \<and>
         page (step ev st) = Some (v\<lparr>simulation := tick vel (simulation v)\<rparr>))"
proof (cases ev)
  case (DragStart i)
  then show ?thesis
    by (cases "page st") (auto simp add: step_def settle_unfold page_def split: if_splits)
next
  case (Dragged i ex ey)
  then show ?thesis
    by (cases "page st") (auto simp add: step_def settle_unfold page_def split: if_splits)
next
  case (DragEnd i)
  then show ?thesis
    by (cases "page st") (auto simp add: step_def settle_unfold page_def split: if_splits)
next
  case (Tick vel)
  then show ?thesis
    by (cases "page st") (auto simp add: step_def settle_unfold page_def split: if_splits)
qed (auto simp add: step_def page_def svg_settle crashed_settle svgMounted_def split: option.splits graph_answer.splits if_splits)

lemma session_state:
  "expandedNodes (run session init) = [''Alice'']"
  "selectedEntity (run session init) = ''Alice''"
  "mode (run session init) = Interactive"
  "loadsInFlight (run session init) = 0"
  "requests (run session init) = [UploadReq, StatsReq, InteractiveReq ''Alice'' [], InteractiveReq ''Alice'' [''Alice'']]"
  "click_mode (run session init) = Some Interactive"
  "map d_id (drawn (run session init)) = [''Alice'', ''Acme'']"
  by (simp_all add: eval_defs example_defs)

lemma view_cases_induct:
  assumes reach: "page (run evs init) = Some v"
    and base: "\<And>g m. P (draw g m)"
    and start: "\<And>v i. P v \<Longrightarrow> i < length (sim_nodes (simulation v)) \<Longrightarrow>
        P (v\<lparr>simulation := dragstarted (length (gestures v)) i (simulation v), gestures := i # gestures v\<rparr>)"
    and move: "\<And>v i ex ey. P v \<Longrightarrow> i \<in> set (gestures v) \<Longrightarrow>
        P (v\<lparr>simulation := dragged ex ey i (simulation v)\<rparr>)"
    and stop: "\<And>v i. P v \<Longrightarrow> i \<in> set (gestures v) \<Longrightarrow>
        P (v\<lparr>simulation := dragended (length (remove1 i (gestures v))) i (simulation v),
             gestures := remove1 i (gestures v)\<rparr>)"
    and tick: "\<And>v vel. P v \<Longrightarrow> P (v\<lparr>simulation := tick vel (simulation v)\<rparr>)"
  shows "P v"
  using reach
proof (induction evs arbitrary: v rule: rev_induct)
  case Nil
  then show ?case by (simp add: init_def page_def)
next
  case (snoc ev evs)
  show ?case
    using page_step_cases [of ev "run evs init"] snoc base start move stop tick
    by (auto simp add: run_snoc)
qed

lemma reachable_heated:
  assumes "page (run evs init) = Some v"
  shows "heated v"
  by (rule view_cases_induct [OF assms, where P = heated])
     (auto simp add: heated_def draw_def dragstarted_def restart_def dragged_def dragended_def
           tick_def Let_def)

lemma reachable_collides40:
  assumes "page (run evs init) = Some v"
  shows "collides40 v"
  by (rule view_cases_induct [OF assms, where P = collides40])
     (auto simp add: collides40_def draw_def forceSimulation_def dragstarted_def restart_def
           dragged_def dragended_def tick_def Let_def)

lemma page_DragStart:
  "page st = Some v \<Longrightarrow> i < length (sim_nodes (simulation v)) \<Longrightarrow>
     page (step (DragStart i) st) =
       Some (v\<lparr>simulation := dragstarted (length (gestures v)) i (simulation v),
               gestures := i # gestures v\<rparr>)"
  by (simp add: step_def settle_unfold page_def split: if_splits)

lemma page_Dragged:
  "page st = Some v \<Longrightarrow> i < length (sim_nodes (simulation v)) \<Longrightarrow> i \<in> set (gestures v) \<Longrightarrow>
     page (step (Dragged i ex ey) st) = Some (v\<lparr>simulation := dragged ex ey i (simulation v)\<rparr>)"
  by (simp add: step_def settle_unfold page_def split: if_splits)

lemma page_DragEnd:
  "page st = Some v \<Longrightarrow> i < length (sim_nodes (simulation v)) \<Longrightarrow> i \<in> set (gestures v) \<Longrightarrow>
     page (step (DragEnd i) st) =
       Some (v\<lparr>simulation := dragended (length (remove1 i (gestures v))) i (simulation v),
               gestures := remove1 i (gestures v)\<rparr>)"
  by (simp add: step_def settle_unfold page_def split: if_splits)

lemma initializeNodes_length [simp]: "length (initializeNodes k ds) = length ds"
  by (induction ds arbitrary: k) simp_all

lemma initializeNodes_nth:
  "i < length ds \<Longrightarrow> initializeNodes k ds ! i = initializeNode (k + i) (ds ! i)"
proof (induction ds arbitrary: k i)
  case Nil
  then show ?case by simp
next
  case (Cons d ds)
  then show ?case by (cases i) simp_all
qed

lemma step_LoadResolved_drawn:
  assumes "0 < loadsInFlight st" and "\<not> crashed st"
  shows "drawn (step (LoadResolved g) st) =
     (if entities st \<noteq> [] \<and> selectedEntity st \<noteq> [] \<and> links_resolve g
      then initializeNodes 0 (nodes g) else [])"
  using assms
  by (simp add: step_def drawn_def page_def svg_settle crashed_settle svgMounted_def draw_def
        forceSimulation_def)

section \<open>The expansion state\<close>

text \<open>
  C1, as the code has it: in interactive mode, a click on a node with the \<^verbatim>\<open>expandable\<close>
  flag set, in a graph that was drawn in interactive mode, appends the node's identifier to
  the end of \<^verbatim>\<open>expandedNodes\<close>, whether or not the identifier is already there.
\<close>

theorem click_appends:
  assumes "mode st = Interactive" and "click_mode st = Some Interactive"
    and "i < length (drawn st)" and "d_expandable (drawn st ! i)"
  shows "expandedNodes (step (Click i) st) = expandedNodes st @ [d_id (drawn st ! i)]"
  using assms by (simp add: step_expandedNodes)

theorem click_appends_witness:
  "mode (run session init) = Interactive \<and> click_mode (run session init) = Some Interactive
   \<and> 1 < length (drawn (run session init)) \<and> d_expandable (drawn (run session init) ! 1)
   \<and> expandedNodes (step (Click 1) (run session init)) = [''Alice'', ''Acme'']"
  using click_appends [where st = "run session init" and i = 1]
  by (simp add: eval_defs example_defs)

text \<open>
  C1 as stated fails: \<^verbatim>\<open>setExpandedNodes(prev => [...prev, d.id])\<close> has no guard, so two
  clicks on the expandable node Acme before the answer to the first click's query is drawn
  leave Acme twice in \<^verbatim>\<open>expandedNodes\<close>.
\<close>

theorem double_click_duplicates:
  "\<not> distinct (expandedNodes (run (session @ [Click 1, Click 1]) init))"
  by (simp add: eval_defs example_defs)

text \<open>
  What holds of the root between events: in every state that the component reaches from
  its start, once the effects of the last event have run, a selected root entity is a
  member of \<^verbatim>\<open>expandedNodes\<close>; an event that leaves the root as it is and is not a reset
  removes nothing from \<^verbatim>\<open>expandedNodes\<close>; a reset, when its button is on the page, sets
  \<^verbatim>\<open>expandedNodes\<close> to the root alone, and does nothing otherwise.
\<close>

lemma root_stays_expanded:
  "(selectedEntity (run evs init) \<noteq> [] \<longrightarrow>
      selectedEntity (run evs init) \<in> set (expandedNodes (run evs init)))
   \<and> (selectedEntity (step ev st) = selectedEntity st \<and> ev \<noteq> Reset \<longrightarrow>
      set (expandedNodes st) \<subseteq> set (expandedNodes (step ev st)))
   \<and> expandedNodes (step Reset st) =
      (if \<not> crashed st \<and> entities st \<noteq> [] \<and> mode st = Interactive \<and> selectedEntity st \<noteq> []
       then [selectedEntity st] else expandedNodes st)"
proof -
  have inv: "selectedEntity (run evs init) \<noteq> [] \<longrightarrow>
      selectedEntity (run evs init) \<in> set (expandedNodes (run evs init))"
  proof (induction evs rule: rev_induct)
    case Nil
    show ?case by (simp add: init_def)
  next
    case (snoc ev evs)
    then show ?case
      by (cases ev) (auto simp add: run_snoc step_expandedNodes step_selectedEntity)
  qed
  have grow: "selectedEntity (step ev st) = selectedEntity st \<and> ev \<noteq> Reset \<longrightarrow>
      set (expandedNodes st) \<subseteq> set (expandedNodes (step ev st))"
    by (cases ev) (auto simp add: step_expandedNodes step_selectedEntity split: if_splits)
  show ?thesis
    using inv grow by (simp add: step_expandedNodes)
qed

lemma root_stays_expanded_example:
  "selectedEntity (run (session @ [Click 1]) init) = ''Alice''
   \<and> ''Alice'' \<in> set (expandedNodes (run (session @ [Click 1]) init))
   \<and> selectedEntity (step (Click 1) (run session init)) = selectedEntity (run session init)
   \<and> set (expandedNodes (run session init)) \<subseteq> set (expandedNodes (step (Click 1) (run session init)))
   \<and> expandedNodes (step Reset (run (session @ [Click 1]) init)) = [''Alice'']"
  using root_stays_expanded [of "session @ [Click 1]" "Click 1" "run session init"]
    root_stays_expanded [of "[]" "Reset" "run (session @ [Click 1]) init"]
  by (simp add: eval_defs example_defs)

text \<open>
  C4, at the failing input: with Alice as root and Acme expanded, Bob is selected. The
  handler only calls \<^verbatim>\<open>setSelectedEntity\<close>, so the component renders with Bob as root
  and the \<^verbatim>\<open>expandedNodes\<close> of Alice's session, in which Bob is not; the \<^verbatim>\<open>loadGraph\<close>
  effect of that render sends the interactive query for Bob with that list. Only the
  \<^verbatim>\<open>[selectedEntity]\<close> effect of the same render sets \<^verbatim>\<open>expandedNodes\<close> to Bob alone,
  and a second query follows.
\<close>

theorem selection_renders_without_root:
  "expandedNodes (run (session @ [Click 1, LoadResolved graph_acme]) init) = [''Alice'', ''Acme'']
   \<and> selectedEntity
         (snd (handler (SelectEntity ''Bob'') (run (session @ [Click 1, LoadResolved graph_acme]) init)))
       = ''Bob''
   \<and> ''Bob'' \<notin> set (expandedNodes
         (snd (handler (SelectEntity ''Bob'') (run (session @ [Click 1, LoadResolved graph_acme]) init))))
   \<and> requests
         (snd (render_pass
                 (fst (handler (SelectEntity ''Bob'') (run (session @ [Click 1, LoadResolved graph_acme]) init)))
                 (snd (handler (SelectEntity ''Bob'') (run (session @ [Click 1, LoadResolved graph_acme]) init)))))
       = requests (run (session @ [Click 1, LoadResolved graph_acme]) init)
           @ [InteractiveReq ''Bob'' [''Alice'', ''Acme'']]
   \<and> requests (step (SelectEntity ''Bob'') (run (session @ [Click 1, LoadResolved graph_acme]) init))
       = requests (run (session @ [Click 1, LoadResolved graph_acme]) init)
           @ [InteractiveReq ''Bob'' [''Alice'', ''Acme''], InteractiveReq ''Bob'' [''Bob'']]"
  by (simp add: eval_defs example_defs)

text \<open>
  What the click handler does guard: a click on a node that is not expandable, and a click
  handled by a handler that was bound in radial mode, leave \<^verbatim>\<open>expandedNodes\<close> as it is.
\<close>

lemma click_behind_gate:
  assumes "\<not> d_expandable (drawn st ! i) \<or> click_mode st \<noteq> Some Interactive"
  shows "expandedNodes (step (Click i) st) = expandedNodes st"
  using assms by (auto simp add: step_expandedNodes)

text \<open>
  C6, at the failing input: the click handler reads the \<^verbatim>\<open>mode\<close> of the render in which
  the graph was drawn (the drawing effect depends on \<^verbatim>\<open>graphData\<close> only). After a switch
  to radial mode whose query fails, the interactive graph stays on the page with its
  handlers, and a click on the expandable node Acme changes \<^verbatim>\<open>expandedNodes\<close> although
  the mode is radial.
\<close>

theorem stale_click_in_radial_mode:
  "mode (run (session @ [SetMode Radial, LoadRejected ''Failed to fetch'']) init) = Radial
   \<and> expandedNodes (run (session @ [SetMode Radial, LoadRejected ''Failed to fetch'']) init) = [''Alice'']
   \<and> expandedNodes (run (session @ [SetMode Radial, LoadRejected ''Failed to fetch'', Click 1]) init) = [''Alice'', ''Acme'']"
  by (simp add: eval_defs example_defs)

text \<open>
  C9: selecting an entity other than the current root makes it the root and replaces
  \<^verbatim>\<open>expandedNodes\<close> by the list of that entity alone.
\<close>

theorem select_entity_resets:
  assumes "\<not> crashed st" and "e \<in> set (entities st)" and "e \<noteq> []" and "e \<noteq> selectedEntity st"
  shows "selectedEntity (step (SelectEntity e) st) = e \<and> expandedNodes (step (SelectEntity e) st) = [e]"
  using assms by (auto simp add: step_expandedNodes step_selectedEntity)

theorem select_entity_resets_witness:
  "\<not> crashed (run (session @ [Click 1]) init)
   \<and> ''Bob'' \<in> set (entities (run (session @ [Click 1]) init))
   \<and> ''Bob'' \<noteq> selectedEntity (run (session @ [Click 1]) init)
   \<and> expandedNodes (run (session @ [Click 1]) init) = [''Alice'', ''Acme'']
   \<and> selectedEntity (step (SelectEntity ''Bob'') (run (session @ [Click 1]) init)) = ''Bob''
   \<and> expandedNodes (step (SelectEntity ''Bob'') (run (session @ [Click 1]) init)) = [''Bob'']"
  using select_entity_resets [of "run (session @ [Click 1]) init" "''Bob''"]
  by (simp add: eval_defs example_defs)

text \<open>
  C10: a change of mode and a change of the radial depth leave \<^verbatim>\<open>expandedNodes\<close> as it
  is, as does every event other than an entity selection, a click on a node and a reset.
  So after any such events the switch from radial back to interactive mode sends the
  interactive query with the \<^verbatim>\<open>expandedNodes\<close> from before.
\<close>

theorem mode_and_depth_keep_expansion:
  "expandedNodes (step (SetMode m) st) = expandedNodes st
   \<and> expandedNodes (step (SetDepth v) st) = expandedNodes st
   \<and> (\<not> writes_expandedNodes ev \<longrightarrow> expandedNodes (step ev st) = expandedNodes st)
   \<and> (list_all (\<lambda>ev. \<not> writes_expandedNodes ev) evs \<and> selectedEntity st \<noteq> []
        \<and> \<not> crashed (run evs st) \<and> entities (run evs st) \<noteq> [] \<and> mode (run evs st) = Radial \<longrightarrow>
      expandedNodes (step (SetMode Interactive) (run evs st)) = expandedNodes st
      \<and> requests (step (SetMode Interactive) (run evs st)) =
          requests (run evs st) @ [InteractiveReq (selectedEntity st) (expandedNodes st)])"
proof -
  have req: "requests (step (SetMode Interactive) s) =
      requests s @ [InteractiveReq (selectedEntity s) (expandedNodes s)]"
    if "\<not> crashed s" "entities s \<noteq> []" "mode s = Radial" "selectedEntity s \<noteq> []" for s
    using that by (simp add: step_def requests_settle query_def)
  have a: "expandedNodes (step (SetMode m) st) = expandedNodes st"
    and b: "expandedNodes (step (SetDepth v) st) = expandedNodes st"
    by (simp_all add: step_frame_others)
  have c: "\<not> writes_expandedNodes ev \<longrightarrow> expandedNodes (step ev st) = expandedNodes st"
    by (simp add: step_frame_others)
  have d: "expandedNodes (step (SetMode Interactive) (run evs st)) = expandedNodes st
      \<and> requests (step (SetMode Interactive) (run evs st)) =
          requests (run evs st) @ [InteractiveReq (selectedEntity st) (expandedNodes st)]"
    if "list_all (\<lambda>ev. \<not> writes_expandedNodes ev) evs" "selectedEntity st \<noteq> []"
      "\<not> crashed (run evs st)" "entities (run evs st) \<noteq> []" "mode (run evs st) = Radial"
    using run_frame_others [OF that(1), of st] req [of "run evs st"] that
    by (simp add: step_frame_others)
  show ?thesis
    using a b c d by blast
qed

theorem mode_and_depth_keep_expansion_witness:
  "list_all (\<lambda>ev. \<not> writes_expandedNodes ev) [SetMode Radial, LoadResolved graph_acme, SetDepth 4]
   \<and> selectedEntity (run (session @ [Click 1]) init) \<noteq> []
   \<and> \<not> crashed (run (session @ [Click 1, SetMode Radial, LoadResolved graph_acme, SetDepth 4]) init)
   \<and> entities (run (session @ [Click 1, SetMode Radial, LoadResolved graph_acme, SetDepth 4]) init) \<noteq> []
   \<and> mode (run (session @ [Click 1, SetMode Radial, LoadResolved graph_acme, SetDepth 4]) init) = Radial
   \<and> expandedNodes (run (session @ [Click 1, SetMode Radial, LoadResolved graph_acme, SetDepth 4, SetMode Interactive]) init)
       = [''Alice'', ''Acme'']
   \<and> last (requests (run (session @ [Click 1, SetMode Radial, LoadResolved graph_acme, SetDepth 4, SetMode Interactive]) init))
       = InteractiveReq ''Alice'' [''Alice'', ''Acme'']"
  using mode_and_depth_keep_expansion
    [of Radial "run (session @ [Click 1]) init" 4 "SetMode Radial"
        "[SetMode Radial, LoadResolved graph_acme, SetDepth 4]"]
  by (simp add: eval_defs example_defs)

section \<open>Requests\<close>

text \<open>
  What the catch branches do: when the \<^verbatim>\<open>fetch\<close> or \<^verbatim>\<open>json\<close> call of the upload, of
  the statistics request that follows it, or of a graph query rejects, an alert with the
  error's message is shown; and no such failure, and no earlier part of \<^verbatim>\<open>uploadFile\<close>,
  changes \<^verbatim>\<open>expandedNodes\<close> or \<^verbatim>\<open>graphData\<close>.
\<close>

lemma failed_request_alerts:
  "(uploadPhase st = AwaitUpload \<longrightarrow>
      alerts (step (UploadRejected msg) st) = alerts st @ [''Error uploading file: '' @ msg])
   \<and> (uploadPhase st = AwaitStats \<longrightarrow>
      alerts (step (StatsRejected msg) st) = alerts st @ [''Error uploading file: '' @ msg])
   \<and> (0 < loadsInFlight st \<longrightarrow>
      alerts (step (LoadRejected msg) st) = alerts st @ [''Error loading graph: '' @ msg])
   \<and> (ev \<in> {UploadFile, UploadResolved es, UploadRejected msg, StatsRejected msg, LoadRejected msg} \<longrightarrow>
      expandedNodes (step ev st) = expandedNodes st \<and> graphData (step ev st) = graphData st)"
  by (auto simp add: step_alerts step_expandedNodes step_graphData)

lemma failed_request_alerts_example:
  "uploadPhase (run [UploadFile] init) = AwaitUpload
   \<and> alerts (step (UploadRejected ''Failed to fetch'') (run [UploadFile] init))
       = [''Error uploading file: Failed to fetch'']
   \<and> uploadPhase (run [UploadFile, UploadResolved [''Alice'']] init) = AwaitStats
   \<and> alerts (step (StatsRejected ''Failed to fetch'') (run [UploadFile, UploadResolved [''Alice'']] init))
       = [''Error uploading file: Failed to fetch'']
   \<and> 0 < loadsInFlight (run (session @ [Click 1]) init)
   \<and> alerts (step (LoadRejected ''Failed to fetch'') (run (session @ [Click 1]) init))
       = [''Error loading graph: Failed to fetch'']
   \<and> expandedNodes (step (LoadRejected ''Failed to fetch'') (run (session @ [Click 1]) init))
       = [''Alice'', ''Acme'']
   \<and> graphData (step (LoadRejected ''Failed to fetch'') (run (session @ [Click 1]) init))
       = Some (Graph graph_alice)"
  using failed_request_alerts [of "run [UploadFile] init" "''Failed to fetch''" "UploadRejected ''Failed to fetch''" "[]"]
    failed_request_alerts [of "run [UploadFile, UploadResolved [''Alice'']] init" "''Failed to fetch''" "StatsRejected ''Failed to fetch''" "[]"]
    failed_request_alerts [of "run (session @ [Click 1]) init" "''Failed to fetch''" "LoadRejected ''Failed to fetch''" "[]"]
  by (simp add: eval_defs example_defs)

text \<open>
  C7, at the failing input: the server refuses the uploaded file, or a graph query, and
  answers with an error report. Neither \<^verbatim>\<open>uploadFile\<close> nor \<^verbatim>\<open>loadGraph\<close> tests
  \<^verbatim>\<open>response.ok\<close>, so the catch branch is not reached: no alert is shown, the report is
  stored as if it were the answer (for the graph query, in \<^verbatim>\<open>graphData\<close>), and the next
  render or the drawing effect throws, which takes the page away.
\<close>

theorem error_answer_without_alert:
  "alerts (run [UploadFile, UploadErrorBody ''Missing required columns''] init) = []
   \<and> crashed (run [UploadFile, UploadErrorBody ''Missing required columns''] init)
   \<and> alerts (run [UploadFile, UploadErrorBody ''Missing required columns'',
                    StatsResolved \<lparr>node_count = 0, edge_count = 0, density = 0\<rparr>] init) = []
   \<and> graphData (run (session @ [Click 1]) init) = Some (Graph graph_alice)
   \<and> drawn (run (session @ [Click 1]) init) \<noteq> []
   \<and> alerts (run (session @ [Click 1, LoadErrorBody ''Entity not found'']) init) = []
   \<and> graphData (run (session @ [Click 1, LoadErrorBody ''Entity not found'']) init)
       = Some (NoGraph ''Entity not found'')
   \<and> crashed (run (session @ [Click 1, LoadErrorBody ''Entity not found'']) init)
   \<and> drawn (run (session @ [Click 1, LoadErrorBody ''Entity not found'']) init) = []"
  by (simp add: eval_defs example_defs effect_throws_def)

text \<open>
  C8: every radial query that the component has sent carries a depth between 1 and 5, and
  the depth state never leaves that range: it starts at 2 and is only set from the value
  of the range input with bounds 1 and 5.
\<close>

theorem radial_depth_bounded:
  "(RadialReq e d \<in> set (requests (run evs init)) \<longrightarrow> 1 \<le> d \<and> d \<le> 5)
   \<and> 1 \<le> depth (run evs init) \<and> depth (run evs init) \<le> 5"
proof (induction evs rule: rev_induct)
  case Nil
  show ?case by (simp add: init_def)
next
  case (snoc ev evs)
  let ?st = "run evs init"
  have d: "1 \<le> depth (step ev ?st) \<and> depth (step ev ?st) \<le> 5"
    using snoc by (cases ev) (auto simp add: step_depth range_value_def)
  have "1 \<le> d \<and> d \<le> 5" if "RadialReq e d \<in> set (requests (step ev ?st))"
    using step_radial_requests [OF that] snoc d by auto
  then show ?case
    using d by (simp add: run_snoc)
qed

theorem radial_depth_bounded_witness:
  "RadialReq ''Alice'' 5 \<in> set (requests (run (session @ [SetMode Radial, SetDepth 9]) init))
   \<and> depth (run (session @ [SetMode Radial, SetDepth 9]) init) = 5
   \<and> (1::int) \<le> 5 \<and> (5::int) \<le> 5"
  using radial_depth_bounded [of "''Alice''" 5 "session @ [SetMode Radial, SetDepth 9]"]
  by (simp add: eval_defs example_defs range_value_def)

section \<open>The layout\<close>

text \<open>
  C2, as the code has it: when an answered query sets \<^verbatim>\<open>graphData\<close>, the drawing effect
  clears the drawing and builds a new simulation from the nodes of the answer alone. The
  layout then holds exactly these nodes, each at the place that the simulation gives to a
  node of its index, whatever the layout was before.
\<close>

theorem new_graph_resets_layout:
  assumes "0 < loadsInFlight st" and "\<not> crashed st"
  shows "drawn (step (LoadResolved g) st) =
           (if entities st \<noteq> [] \<and> selectedEntity st \<noteq> [] \<and> links_resolve g
            then initializeNodes 0 (nodes g) else [])
       \<and> (i < length (nodes g) \<longrightarrow>
            d_id (initializeNodes 0 (nodes g) ! i) = d_id (nodes g ! i)
            \<and> d_x (initializeNodes 0 (nodes g) ! i)
                = initialRadius * sqrt (0.5 + real i) * cos (real i * initialAngle)
            \<and> d_y (initializeNodes 0 (nodes g) ! i)
                = initialRadius * sqrt (0.5 + real i) * sin (real i * initialAngle))"
  using step_LoadResolved_drawn [OF assms]
  by (simp add: initializeNodes_nth initializeNode_def)

theorem new_graph_resets_layout_witness:
  "0 < loadsInFlight (run (session @ [Click 1]) init) \<and> \<not> crashed (run (session @ [Click 1]) init)
   \<and> map d_id (drawn (step (LoadResolved graph_acme) (run (session @ [Click 1]) init)))
       = [''Alice'', ''Acme'', ''Bob'']
   \<and> d_y (initializeNodes 0 (nodes graph_acme) ! 0) = 0"
  using new_graph_resets_layout [of "run (session @ [Click 1]) init" graph_acme 0]
  by (simp add: eval_defs example_defs initialRadius_def)

text \<open>
  C2 as stated fails: Alice is dragged to (300, 400) and released, Acme is clicked, and the
  answer to that query is drawn. Alice is in both results, but the new layout puts her
  back at the start of the spiral.
\<close>

theorem dragged_node_jumps_back:
  "position ''Alice''
     (drawn (run (session @ [DragStart 0, Dragged 0 300 400, Tick (\<lambda>i. (1, - 2)), DragEnd 0, Click 1]) init))
     = Some (300, 400)
   \<and> map_option snd (position ''Alice''
     (drawn (run (session @ [DragStart 0, Dragged 0 300 400, Tick (\<lambda>i. (1, - 2)), DragEnd 0, Click 1,
                             LoadResolved graph_acme]) init)))
     = Some 0
   \<and> \<not> carried_over
     (drawn (run (session @ [DragStart 0, Dragged 0 300 400, Tick (\<lambda>i. (1, - 2)), DragEnd 0, Click 1]) init))
     (drawn (run (session @ [DragStart 0, Dragged 0 300 400, Tick (\<lambda>i. (1, - 2)), DragEnd 0, Click 1,
                             LoadResolved graph_acme]) init))"
  by (simp add: eval_defs example_defs dragstarted_def dragged_def dragended_def restart_def
        tick_def tick_node_def position_def carried_over_def initialRadius_def)

text \<open>
  C3, as the code has it: in every state that the component reaches, the collision force
  of the drawn graph has the radius 40 for every node, while a node's circle is drawn with
  the radius \<^verbatim>\<open>d.size\<close>.
\<close>

theorem collision_radius_constant:
  assumes "the_simulation (run evs init) = Some sim"
  shows "collide_radius sim d = 40 \<and> circle_r d = d_size d"
proof -
  obtain v where v: "page (run evs init) = Some v" and sim: "sim = simulation v"
    using assms by (auto simp add: the_simulation_def)
  show ?thesis
    using reachable_collides40 [OF v] sim by (simp add: collides40_def circle_r_def)
qed

theorem collision_radius_constant_witness:
  "the_simulation (run session init) = Some (forceSimulation graph_alice)
   \<and> collide_radius (forceSimulation graph_alice) (initializeNode 1 acme) = 40
   \<and> circle_r (initializeNode 1 acme) = 20"
  using collision_radius_constant [of session "forceSimulation graph_alice" "initializeNode 1 acme"]
  by (simp add: eval_defs example_defs)

text \<open>
  C3 as stated fails: Acme has size 20 and is drawn with radius 20, and its collision
  radius is 40.
\<close>

theorem collision_radius_is_not_size:
  "map_option (\<lambda>sim. collide_radius sim (drawn (run session init) ! 1)) (the_simulation (run session init))
     = Some 40
   \<and> d_size (drawn (run session init) ! 1) = 20
   \<and> circle_r (drawn (run session init) ! 1) = 20"
  by (simp add: eval_defs example_defs circle_r_def)

text \<open>
  C5: in every state that the component reaches, for a drawn node: a drag start pins the
  node at its position, and afterwards the alpha target is 0.3 and the simulation has been
  restarted (by this gesture, if no other one runs; by the first of the running gestures
  otherwise); a drag move sets the pin to the event's position; a drag end removes the
  pin and, if no other gesture runs, sets the alpha target to 0.
\<close>

theorem drag_protocol:
  assumes "st = run evs init" and "i < length (drawn st)"
  shows "d_fx (drawn (step (DragStart i) st) ! i) = Some (d_x (drawn st ! i))
       \<and> d_fy (drawn (step (DragStart i) st) ! i) = Some (d_y (drawn st ! i))
       \<and> map_option alphaTarget (the_simulation (step (DragStart i) st)) = Some 0.3
       \<and> (running_gestures st = [] \<longrightarrow>
            map_option restarts (the_simulation (step (DragStart i) st))
              = map_option (\<lambda>sim. Suc (restarts sim)) (the_simulation st))
       \<and> map_option (\<lambda>sim. 0 < restarts sim) (the_simulation (step (DragStart i) st)) = Some True
       \<and> (i \<in> set (running_gestures st) \<longrightarrow>
            d_fx (drawn (step (Dragged i event_x event_y) st) ! i) = Some event_x
            \<and> d_fy (drawn (step (Dragged i event_x event_y) st) ! i) = Some event_y)
       \<and> (i \<in> set (running_gestures st) \<longrightarrow>
            d_fx (drawn (step (DragEnd i) st) ! i) = None
            \<and> d_fy (drawn (step (DragEnd i) st) ! i) = None
            \<and> (remove1 i (running_gestures st) = [] \<longrightarrow>
                 map_option alphaTarget (the_simulation (step (DragEnd i) st)) = Some 0))"
proof -
  obtain v where v: "page st = Some v" and i: "i < length (sim_nodes (simulation v))"
    using assms(2) by (cases "page st") (simp_all add: drawn_def)
  have h: "heated v"
    using reachable_heated v assms(1) by simp
  have start: "d_fx (drawn (step (DragStart i) st) ! i) = Some (d_x (drawn st ! i))
       \<and> d_fy (drawn (step (DragStart i) st) ! i) = Some (d_y (drawn st ! i))
       \<and> map_option alphaTarget (the_simulation (step (DragStart i) st)) = Some 0.3
       \<and> (running_gestures st = [] \<longrightarrow>
            map_option restarts (the_simulation (step (DragStart i) st))
              = map_option (\<lambda>sim. Suc (restarts sim)) (the_simulation st))
       \<and> map_option (\<lambda>sim. 0 < restarts sim) (the_simulation (step (DragStart i) st)) = Some True"
    using h i
    by (auto simp add: drawn_def the_simulation_def running_gestures_def v page_DragStart [OF v i]
          dragstarted_def restart_def heated_def Let_def)
  have move: "d_fx (drawn (step (Dragged i event_x event_y) st) ! i) = Some event_x
            \<and> d_fy (drawn (step (Dragged i event_x event_y) st) ! i) = Some event_y"
    if "i \<in> set (running_gestures st)"
    using that i
    by (simp add: drawn_def running_gestures_def v page_Dragged [OF v i] dragged_def)
  have stop: "d_fx (drawn (step (DragEnd i) st) ! i) = None
            \<and> d_fy (drawn (step (DragEnd i) st) ! i) = None
            \<and> (remove1 i (running_gestures st) = [] \<longrightarrow>
                 map_option alphaTarget (the_simulation (step (DragEnd i) st)) = Some 0)"
    if "i \<in> set (running_gestures st)"
    using that i
    by (simp add: drawn_def the_simulation_def running_gestures_def v page_DragEnd [OF v i]
          dragended_def Let_def)
  show ?thesis
    using start move stop by blast
qed

theorem drag_protocol_witness:
  "0 < length (drawn (run session init))
   \<and> d_fx (drawn (step (DragStart 0) (run session init)) ! 0) = Some (d_x (drawn (run session init) ! 0))
   \<and> map_option alphaTarget (the_simulation (step (DragStart 0) (run session init))) = Some 0.3
   \<and> map_option restarts (the_simulation (step (DragStart 0) (run session init))) = Some 1
   \<and> 0 \<in> set (running_gestures (run (session @ [DragStart 0]) init))
   \<and> d_fx (drawn (step (Dragged 0 300 400) (run (session @ [DragStart 0]) init)) ! 0) = Some 300
   \<and> d_fy (drawn (step (Dragged 0 300 400) (run (session @ [DragStart 0]) init)) ! 0) = Some 400
   \<and> d_fx (drawn (step (DragEnd 0) (run (session @ [DragStart 0]) init)) ! 0) = None
   \<and> map_option alphaTarget (the_simulation (step (DragEnd 0) (run (session @ [DragStart 0]) init))) = Some 0"
  using drag_protocol [of "run session init" session 0 300 400]
    drag_protocol [of "run (session @ [DragStart 0]) init" "session @ [DragStart 0]" 0 300 400]
  by (simp add: eval_defs example_defs dragstarted_def dragged_def dragended_def restart_def)

end
